theory Spec2Isabelle
  imports Complex_Main "HOL-Library.Word"
begin

unbundle bit_operations_syntax

section \<open>fsstat.py: a FAT32 image parser\<close>

text \<open>
  A shallow embedding of \<^verbatim>\<open>src/fsstat.py\<close>. The image file is the list of its bytes;
  Python's unbounded integers are \<^typ>\<open>int\<close>; every exception the code can raise is a
  value of \<open>error\<close>; the two loops that may run forever (the chain-following loop of
  \<^verbatim>\<open>_get_sectors\<close> and the scan and recursion of \<^verbatim>\<open>parse_dir\<close>) take fuel, and
  \<open>None\<close> means that the fuel ran out.
\<close>

subsection \<open>Python primitives\<close>

type_synonym byte = "8 word"

datatype error = AssertionError | IndexError | ZeroDivisionError | OSError

text \<open>\<^verbatim>\<open>int.from_bytes(data, byteorder="little", signed=False)\<close>; the empty string gives 0.\<close>

fun unpack :: "byte list \<Rightarrow> int" where
  "unpack [] = 0"
| "unpack (b # bs) = uint b + 256 * unpack bs"

text \<open>The slice \<^verbatim>\<open>xs[a:b]\<close>: a negative index counts from the end, and both are clamped.\<close>

definition py_slice :: "'a list \<Rightarrow> int \<Rightarrow> int \<Rightarrow> 'a list" where
  "py_slice xs a b =
     (let n = int (length xs);
          lo = (if a < 0 then max (a + n) 0 else min a n);
          hi = (if b < 0 then max (b + n) 0 else min b n)
      in take (nat (hi - lo)) (drop (nat lo) xs))"

text \<open>The subscript \<^verbatim>\<open>xs[i]\<close> of a bytes object: an int, or IndexError out of range.\<close>

definition py_index :: "byte list \<Rightarrow> int \<Rightarrow> error + int" where
  "py_index xs i =
     (let n = int (length xs); j = (if i < 0 then i + n else i)
      in if 0 \<le> j \<and> j < n then Inr (uint (xs ! nat j)) else Inl IndexError)"

text \<open>
  \<^verbatim>\<open>file.seek(pos); file.read(n)\<close> on a file opened with \<^verbatim>\<open>"rb"\<close>: a negative
  position raises OSError, a read at or past the end of the file returns fewer bytes
  (or none), a negative count reads to the end of the file.
\<close>

definition seek_read :: "byte list \<Rightarrow> int \<Rightarrow> int \<Rightarrow> error + byte list" where
  "seek_read f pos n =
     (if pos < 0 then Inl OSError
      else if n < 0 then Inr (drop (nat pos) f)
      else Inr (take (nat n) (drop (nat pos) f)))"

text \<open>
  \<^verbatim>\<open>str(data)\<close> of a bytes object is its \<^verbatim>\<open>repr\<close>: \<^verbatim>\<open>b'...'\<close>, with double quotes
  when the data holds a single quote and no double quote, and with the escapes
  \<^verbatim>\<open>\\t \\n \\r \\\\ \\xhh\<close>.
\<close>

definition hex_digit :: "nat \<Rightarrow> char" where
  "hex_digit d = (''0123456789abcdef'') ! d"

definition repr_byte :: "nat \<Rightarrow> nat \<Rightarrow> string" where
  "repr_byte quote c =
     (if c = quote \<or> c = 0x5C then [CHR 0x5C, char_of c]
      else if c = 9 then [CHR 0x5C, CHR ''t'']
      else if c = 10 then [CHR 0x5C, CHR ''n'']
      else if c = 13 then [CHR 0x5C, CHR ''r'']
      else if c < 0x20 \<or> 0x7F \<le> c then [CHR 0x5C, CHR ''x'', hex_digit (c div 16), hex_digit (c mod 16)]
      else [char_of c])"

definition py_str :: "byte list \<Rightarrow> string" where
  "py_str data =
     (let cs = map unat data;
          quote = (if 0x27 \<in> set cs \<and> 0x22 \<notin> set cs then 0x22 else 0x27)
      in [CHR ''b'', char_of quote] @ concat (map (repr_byte quote) cs) @ [char_of quote])"

subsection \<open>The state of a \<^verbatim>\<open>Fat\<close> object\<close>

record boot =
  bytes_per_sector :: int
  sectors_per_cluster :: int
  reserved_sectors :: int
  number_of_fats :: int
  total_sectors :: int
  sectors_per_fat :: int
  root_dir_first_cluster :: int
  bytes_per_cluster :: int
  fat0_sector_start :: int
  fat0_sector_end :: int
  data_start :: int
  data_end :: int

record Fat =
  file_bytes :: "byte list"
  boot :: boot
  fat :: "byte list"

text \<open>
  The module \<^verbatim>\<open>hw4utils\<close> is imported by the source and is not part of it. Its two
  functions are parameters of the model: any pair of pure functions.
\<close>

record hw4utils =
  get_entry_type :: "int \<Rightarrow> string"
  parse_name :: "byte list \<Rightarrow> string"

text \<open>The seeks of \<^verbatim>\<open>_parse_reserved_sector\<close> are at positions that are never negative.\<close>

definition read_at :: "byte list \<Rightarrow> int \<Rightarrow> int \<Rightarrow> byte list" where
  "read_at f pos n = take (nat n) (drop (nat pos) f)"

definition parse_reserved_sector :: "byte list \<Rightarrow> Fat" where
  "parse_reserved_sector f =
     (let bps = unpack (read_at f 11 2);
          spc = unpack (read_at f 13 1);
          rsv = unpack (read_at f 14 2);
          nfats = unpack (read_at f 16 1);
          total = unpack (read_at f 32 4);
          spf = unpack (read_at f 36 4);
          root = unpack (read_at f 44 4)
      in \<lparr> file_bytes = f,
           boot = \<lparr> bytes_per_sector = bps, sectors_per_cluster = spc, reserved_sectors = rsv,
                    number_of_fats = nfats, total_sectors = total, sectors_per_fat = spf,
                    root_dir_first_cluster = root,
                    bytes_per_cluster = bps * spc,
                    fat0_sector_start = rsv,
                    fat0_sector_end = rsv + spf - 1,
                    data_start = rsv + spf * nfats,
                    data_end = total - 1 \<rparr>,
           fat = read_at f (rsv * bps) (spf * bps) \<rparr>)"

subsection \<open>Cluster arithmetic and chains\<close>

definition to_sector :: "Fat \<Rightarrow> int \<Rightarrow> int" where
  "to_sector s cluster = (cluster - 2) * sectors_per_cluster (boot s) + data_start (boot s)"

definition end_sector :: "Fat \<Rightarrow> int \<Rightarrow> int" where
  "end_sector s cluster = to_sector s cluster + sectors_per_cluster (boot s) - 1"

text \<open>\<^verbatim>\<open>list(range(self._to_sector(c), self._end_sector(c) + 1))\<close>\<close>

definition cluster_sectors :: "Fat \<Rightarrow> int \<Rightarrow> int list" where
  "cluster_sectors s c = [to_sector s c .. end_sector s c]"

text \<open>\<^verbatim>\<open>unpack(self.fat[byte_offset : byte_offset + 4])\<close> with \<^verbatim>\<open>byte_offset = c * 4\<close>\<close>

definition fat_entry :: "Fat \<Rightarrow> int \<Rightarrow> int" where
  "fat_entry s c = unpack (py_slice (fat s) (c * 4) (c * 4 + 4))"

text \<open>
  The \<^verbatim>\<open>while entry_value <= 0x0FFFFFF8\<close> loop of \<^verbatim>\<open>_get_sectors\<close>; one unit of fuel
  for each iteration.
\<close>

fun follow_chain :: "nat \<Rightarrow> Fat \<Rightarrow> int \<Rightarrow> int list \<Rightarrow> int list option" where
  "follow_chain 0 s entry_value list_of_sectors =
     (if entry_value \<le> 0x0FFFFFF8 then None else Some list_of_sectors)"
| "follow_chain (Suc fuel) s entry_value list_of_sectors =
     (if entry_value \<le> 0x0FFFFFF8
      then follow_chain fuel s (fat_entry s entry_value)
             (list_of_sectors @ cluster_sectors s entry_value)
      else Some list_of_sectors)"

text \<open>
  \<^verbatim>\<open>_get_sectors\<close>. The \<^verbatim>\<open>assert\<close> statements of the source are taken as enabled: a failed
  one raises AssertionError.
\<close>

definition get_sectors :: "nat \<Rightarrow> Fat \<Rightarrow> int \<Rightarrow> (error + int list) option" where
  "get_sectors fuel s number =
     (if \<not> (0 < number * 4 + 4 \<and> number * 4 + 4 < sectors_per_fat (boot s))
      then Some (Inl AssertionError)
      else let entry_value = fat_entry s number
           in if entry_value \<noteq> 0
              then map_option Inr (follow_chain fuel s entry_value (cluster_sectors s number))
              else Some (Inr []))"

text \<open>The \<^verbatim>\<open>for curr_sector in sector_list\<close> loop of \<^verbatim>\<open>_retrieve_data\<close>.\<close>

fun read_sectors :: "Fat \<Rightarrow> int list \<Rightarrow> byte list \<Rightarrow> error + byte list" where
  "read_sectors s [] data = Inr data"
| "read_sectors s (curr_sector # rest) data =
     (case seek_read (file_bytes s) (curr_sector * bytes_per_sector (boot s)) (bytes_per_sector (boot s)) of
        Inl e \<Rightarrow> Inl e
      | Inr d \<Rightarrow> read_sectors s rest (data @ d))"

text \<open>\<^verbatim>\<open>_retrieve_data\<close>: the parameter \<^verbatim>\<open>ignore_unallocated\<close> is never read by the body.\<close>

definition retrieve_data :: "nat \<Rightarrow> Fat \<Rightarrow> int \<Rightarrow> bool \<Rightarrow> (error + byte list) option" where
  "retrieve_data fuel s cluster ignore_unallocated =
     (case get_sectors fuel s cluster of
        None \<Rightarrow> None
      | Some (Inl e) \<Rightarrow> Some (Inl e)
      | Some (Inr sector_list) \<Rightarrow> Some (read_sectors s sector_list []))"

text \<open>
  \<^verbatim>\<open>_get_first_cluster\<close>. The source divides with \<^verbatim>\<open>/\<close>, a float division that raises
  ZeroDivisionError on 0, and compares the integer with the float. The operands are below
  \<open>2 ^ 32\<close> and \<open>2 ^ 8\<close>, where rounding the quotient to a double never moves it across
  an integer it does not equal, so the comparison is the one with the exact quotient.
\<close>

definition get_first_cluster :: "Fat \<Rightarrow> byte list \<Rightarrow> error + int" where
  "get_first_cluster s entry =
     (let high_order = push_bit 16 (unpack (py_slice entry 20 22));
          low_order = unpack (py_slice entry 26 28);
          content_cluster = high_order + low_order
      in if sectors_per_cluster (boot s) = 0 then Inl ZeroDivisionError
         else if (of_int content_cluster :: rat)
                 \<le> of_int (total_sectors (boot s)) / of_int (sectors_per_cluster (boot s))
         then Inr content_cluster
         else Inl AssertionError)"

text \<open>\<^verbatim>\<open>_get_content\<close>: the content and, where the data read is not empty, the slack.\<close>

definition get_content :: "nat \<Rightarrow> Fat \<Rightarrow> int \<Rightarrow> int \<Rightarrow> (error + string \<times> string option) option" where
  "get_content fuel s cluster filesize =
     (let min_size = min 128 filesize
      in case retrieve_data fuel s cluster True of
           None \<Rightarrow> None
         | Some (Inl e) \<Rightarrow> Some (Inl e)
         | Some (Inr data) \<Rightarrow>
             if data \<noteq> []
             then Some (Inr (py_str (py_slice data 0 min_size),
                             Some (py_str (py_slice data filesize (filesize + 32)))))
             else (case seek_read (file_bytes s) (to_sector s cluster * bytes_per_sector (boot s)) min_size of
                     Inl e \<Rightarrow> Some (Inl e)
                   | Inr d \<Rightarrow> Some (Inr (py_str d, None))))"

subsection \<open>The directory walk\<close>

text \<open>
  One dictionary of the list \<^verbatim>\<open>parse_dir\<close> returns. A key that the code does not set is
  \<open>None\<close>; the key \<^verbatim>\<open>slack\<close> can be set to Python's \<^verbatim>\<open>None\<close>, which is \<open>Some None\<close>.
\<close>

record dir_entry =
  parent :: string
  dir_cluster :: int
  entry_num :: int
  dir_sectors :: "int list"
  entry_type :: string
  name :: string
  deleted :: bool
  content_cluster :: "int option"
  filesize :: "int option"
  content_sectors :: "int list option"
  content :: "string option"
  slack :: "string option option"

text \<open>
  What one iteration of the \<^verbatim>\<open>while\<close> loop of \<^verbatim>\<open>parse_dir\<close> decodes, before it recurses
  and appends: the \<^verbatim>\<open>break\<close>, an entry to append, or a directory entry together with the
  arguments of the recursive call.
\<close>

datatype step = Terminator | Plain dir_entry | Subdir dir_entry int string

definition scan_entry ::
  "nat \<Rightarrow> hw4utils \<Rightarrow> Fat \<Rightarrow> int \<Rightarrow> string \<Rightarrow> int \<Rightarrow> (error + step) option" where
  "scan_entry fuel u s cluster par num =
     (case retrieve_data fuel s cluster True of
        None \<Rightarrow> None
      | Some (Inl e) \<Rightarrow> Some (Inl e)
      | Some (Inr data) \<Rightarrow>
     (let byte_offset = 32 * num;
          entry_data = py_slice data byte_offset (byte_offset + 32)
      in case get_sectors fuel s cluster of
        None \<Rightarrow> None
      | Some (Inl e) \<Rightarrow> Some (Inl e)
      | Some (Inr secs) \<Rightarrow>
     (case py_index entry_data 11 of
        Inl e \<Rightarrow> Some (Inl e)
      | Inr tag \<Rightarrow>
     (let etype = get_entry_type u tag
      in if etype = ''0x0'' then Some (Inr Terminator)
         else
     (let nm = parse_name u entry_data
      in case py_index entry_data 0 of
        Inl e \<Rightarrow> Some (Inl e)
      | Inr first_byte \<Rightarrow>
     (let entry = \<lparr> parent = par, dir_cluster = cluster, entry_num = num, dir_sectors = secs,
                     entry_type = etype, name = nm, deleted = (first_byte = 0xE5),
                     content_cluster = None, filesize = None, content_sectors = None,
                     content = None, slack = None \<rparr>
      in if etype = ''dir'' \<and> nm \<noteq> ''.'' \<and> nm \<noteq> ''..''
         then (case get_first_cluster s entry_data of
                 Inl e \<Rightarrow> Some (Inl e)
               | Inr cc \<Rightarrow> Some (Inr (Subdir (entry\<lparr>content_cluster := Some cc\<rparr>) cc (''/'' @ nm))))
         else if etype \<noteq> ''lfn'' \<and> etype \<noteq> ''vol'' \<and> etype \<noteq> ''dir''
         then (case get_first_cluster s entry_data of
                 Inl e \<Rightarrow> Some (Inl e)
               | Inr cc \<Rightarrow>
                   if cc \<noteq> 0
                   then (let fsize = unpack (py_slice entry_data 28 32)
                         in case get_content fuel s cc fsize of
                              None \<Rightarrow> None
                            | Some (Inl e) \<Rightarrow> Some (Inl e)
                            | Some (Inr (c, sl)) \<Rightarrow>
                         (case get_sectors fuel s cc of
                              None \<Rightarrow> None
                            | Some (Inl e) \<Rightarrow> Some (Inl e)
                            | Some (Inr csecs) \<Rightarrow>
                                Some (Inr (Plain (entry\<lparr>content_cluster := Some cc,
                                  filesize := Some fsize, content_sectors := Some csecs,
                                  content := Some c, slack := Some sl\<rparr>)))))
                   else Some (Inr (Plain (entry\<lparr>content_cluster := Some cc\<rparr>))))
         else Some (Inr (Plain entry))))))))"

text \<open>
  The loop \<^verbatim>\<open>while (not is_dir) or (not is_unallocated)\<close> with its state: the entry
  number, the two flags and the list built so far. Every iteration and every level of the
  recursion takes one unit of fuel. (The interpreter's recursion limit is not modelled.)
\<close>

fun parse_dir_loop ::
  "nat \<Rightarrow> hw4utils \<Rightarrow> Fat \<Rightarrow> int \<Rightarrow> string \<Rightarrow> int \<Rightarrow> bool \<Rightarrow> bool \<Rightarrow> dir_entry list
     \<Rightarrow> (error + dir_entry list) option" where
  "parse_dir_loop 0 u s cluster par num is_dir is_unallocated directory_entries =
     (if (\<not> is_dir) \<or> (\<not> is_unallocated) then None else Some (Inr directory_entries))"
| "parse_dir_loop (Suc fuel) u s cluster par num is_dir is_unallocated directory_entries =
     (if (\<not> is_dir) \<or> (\<not> is_unallocated)
      then (case scan_entry (Suc fuel) u s cluster par num of
              None \<Rightarrow> None
            | Some (Inl e) \<Rightarrow> Some (Inl e)
            | Some (Inr Terminator) \<Rightarrow> Some (Inr directory_entries)
            | Some (Inr (Plain entry)) \<Rightarrow>
                parse_dir_loop fuel u s cluster par (num + 1) is_dir is_unallocated
                  (directory_entries @ [entry])
            | Some (Inr (Subdir entry cc child)) \<Rightarrow>
                (case parse_dir_loop fuel u s cc child 0 False False [] of
                   None \<Rightarrow> None
                 | Some (Inl e) \<Rightarrow> Some (Inl e)
                 | Some (Inr sub) \<Rightarrow>
                     parse_dir_loop fuel u s cluster par (num + 1) True is_unallocated
                       ((directory_entries @ sub) @ [entry])))
      else Some (Inr directory_entries))"

definition parse_dir :: "nat \<Rightarrow> hw4utils \<Rightarrow> Fat \<Rightarrow> int \<Rightarrow> string \<Rightarrow> (error + dir_entry list) option" where
  "parse_dir fuel u s cluster par = parse_dir_loop fuel u s cluster par 0 False False []"

text \<open>
  \<^verbatim>\<open>Fat(filename).info()\<close>: the boot dictionary that is printed first, then the entries of
  the walk from the root directory's first cluster.
\<close>

definition info :: "nat \<Rightarrow> hw4utils \<Rightarrow> Fat \<Rightarrow> boot \<times> (error + dir_entry list) option" where
  "info fuel u s = (boot s, parse_dir fuel u s (root_dir_first_cluster (boot s)) [])"

definition fsstat_main :: "nat \<Rightarrow> hw4utils \<Rightarrow> byte list \<Rightarrow> boot \<times> (error + dir_entry list) option" where
  "fsstat_main fuel u f = info fuel u (parse_reserved_sector f)"

subsection \<open>A sample image\<close>

text \<open>
  Modelled from the spec: \<^verbatim>\<open>hw4utils.get_entry_type\<close> and \<^verbatim>\<open>hw4utils.parse_name\<close> are
  missing from the source; the spec names them \<^verbatim>\<open>classify_entry_type\<close>, from the type-tag
  byte to one of vol, lfn, dir, other and empty, and \<^verbatim>\<open>decode_display_name\<close>, from the
  32-byte record to a string. The sample classifier reads the FAT attribute byte and
  answers the string the source compares with, \<^verbatim>\<open>hex(0)\<close>, for the tag 0; the sample
  decoder reads the 8.3 short name. They are used on the sample images only: every
  theorem below holds for any pair of functions.
\<close>

definition sample_entry_type :: "int \<Rightarrow> string" where
  "sample_entry_type tag =
     (if tag = 0 then ''0x0'' else if tag = 0x0F then ''lfn'' else if tag = 0x08 then ''vol''
      else if tag = 0x10 then ''dir'' else ''other'')"

definition rstrip :: "byte list \<Rightarrow> byte list" where
  "rstrip bs = rev (dropWhile (\<lambda>b. b = 0x20) (rev bs))"

definition sample_parse_name :: "byte list \<Rightarrow> string" where
  "sample_parse_name raw =
     (let base = map (\<lambda>b. char_of (unat b)) (rstrip (take 8 raw));
          ext = map (\<lambda>b. char_of (unat b)) (rstrip (take 3 (drop 8 raw)))
      in if ext = [] then base else base @ ''.'' @ ext)"

definition sample_utils :: hw4utils where
  "sample_utils = \<lparr> get_entry_type = sample_entry_type, parse_name = sample_parse_name \<rparr>"

text \<open>
  Images of 512-byte sectors, one sector in a cluster, 32 reserved sectors and one FAT of
  \<open>spf\<close> sectors, so that cluster \<open>c\<close> is sector \<open>30 + spf + c\<close>.
\<close>

definition le32 :: "nat \<Rightarrow> byte list" where
  "le32 n = [of_nat n, of_nat (n div 256), of_nat (n div 65536), of_nat (n div 16777216)]"

definition boot_sector :: "nat \<Rightarrow> nat \<Rightarrow> byte list" where
  "boot_sector nsectors spf =
     replicate 11 0 @ [0x00, 0x02] @ [1] @ [32, 0] @ [1] @ replicate 15 0
       @ le32 nsectors @ le32 spf @ replicate 4 0 @ le32 2 @ replicate 464 0"

definition image_of :: "nat \<Rightarrow> nat \<Rightarrow> byte list \<Rightarrow> byte list \<Rightarrow> byte list" where
  "image_of nsectors spf fat_bytes data_area =
     boot_sector nsectors spf @ replicate (31 * 512) 0
       @ fat_bytes @ replicate (spf * 512 - length fat_bytes) 0 @ data_area"

definition raw_entry :: "byte list \<Rightarrow> byte \<Rightarrow> byte list \<Rightarrow> byte list \<Rightarrow> byte list" where
  "raw_entry name11 attr low16 size32 =
     name11 @ [attr] @ [0, 0, 0, 0, 0, 0, 0, 0] @ [0, 0] @ [0, 0, 0, 0] @ low16 @ size32"

text \<open>
  The sample volume. The root directory, cluster 2, holds the directory \<^verbatim>\<open>SUB\<close>
  (cluster 3) and the file \<^verbatim>\<open>A.TXT\<close> (5 bytes, \<^verbatim>\<open>hello\<close>, on the chain of the clusters 4
  and 7); \<^verbatim>\<open>SUB\<close> holds the directory \<^verbatim>\<open>DEEP\<close> (cluster 5), which holds the empty file
  \<^verbatim>\<open>B\<close>. Cluster 6 is unallocated and still holds the bytes \<^verbatim>\<open>old\<close>. The FAT entry of
  cluster 8 names cluster \<open>0x2000\<close>, whose own entry would lie past the end of the FAT.
  Entry 0 of the FAT has its four reserved top bits set.
\<close>

definition sample_fat :: "byte list" where
  "sample_fat =
     [0xF8, 0xFF, 0xFF, 0xFF] @ [0xFF, 0xFF, 0xFF, 0x0F]
       @ [0xFF, 0xFF, 0xFF, 0x0F] @ [0xFF, 0xFF, 0xFF, 0x0F] @ [0x07, 0x00, 0x00, 0x00]
       @ [0xFF, 0xFF, 0xFF, 0x0F] @ [0x00, 0x00, 0x00, 0x00] @ [0xFF, 0xFF, 0xFF, 0x0F]
       @ [0x00, 0x20, 0x00, 0x00]"

definition root_cluster :: "byte list" where
  "root_cluster =
     raw_entry [0x53, 0x55, 0x42, 0x20, 0x20, 0x20, 0x20, 0x20, 0x20, 0x20, 0x20] 0x10 [3, 0]
         [0, 0, 0, 0]
       @ raw_entry [0x41, 0x20, 0x20, 0x20, 0x20, 0x20, 0x20, 0x20, 0x54, 0x58, 0x54] 0x20 [4, 0]
           [5, 0, 0, 0]
       @ replicate 448 0"

definition sub_cluster :: "byte list" where
  "sub_cluster =
     raw_entry [0x44, 0x45, 0x45, 0x50, 0x20, 0x20, 0x20, 0x20, 0x20, 0x20, 0x20] 0x10 [5, 0]
         [0, 0, 0, 0]
       @ replicate 480 0"

definition file_cluster :: "byte list" where
  "file_cluster = [0x68, 0x65, 0x6C, 0x6C, 0x6F] @ replicate 507 0"

definition deep_cluster :: "byte list" where
  "deep_cluster = raw_entry [0x42, 0x20, 0x20, 0x20, 0x20, 0x20, 0x20, 0x20, 0x20, 0x20, 0x20] 0x20 [0, 0]
         [0, 0, 0, 0]
       @ replicate 480 0"

definition lost_cluster :: "byte list" where
  "lost_cluster = [0x6F, 0x6C, 0x64] @ replicate 509 0"

definition sample_image :: "nat \<Rightarrow> byte list" where
  "sample_image spf =
     image_of (39 + spf) spf sample_fat
       (root_cluster @ sub_cluster @ file_cluster @ deep_cluster @ lost_cluster
          @ replicate 512 0 @ replicate 512 0)"

text \<open>A volume with \<^verbatim>\<open>total_sectors = 0\<close> whose root directory holds a volume label.\<close>

definition label_image :: "byte list" where
  "label_image =
     image_of 0 40 ([0xF8, 0xFF, 0xFF, 0xFF] @ [0xFF, 0xFF, 0xFF, 0x0F] @ [0xFF, 0xFF, 0xFF, 0x0F])
       (raw_entry [0x56, 0x4F, 0x4C, 0x20, 0x20, 0x20, 0x20, 0x20, 0x20, 0x20, 0x20] 0x08 [0, 0]
          [0, 0, 0, 0]
        @ replicate 480 0)"

text \<open>An image cut off after its FAT: cluster 2 is allocated and lies past the end of the file.\<close>

definition truncated_image :: "byte list" where
  "truncated_image =
     image_of 41 40 ([0xF8, 0xFF, 0xFF, 0xFF] @ [0xFF, 0xFF, 0xFF, 0x0F] @ [0xFF, 0xFF, 0xFF, 0x0F]) []"

definition sample_fs :: Fat where
  "sample_fs = parse_reserved_sector (sample_image 40)"

text \<open>The same volume with the geometry of the spec's Scenario A: a FAT of 8 sectors.\<close>

definition scenario_A :: Fat where
  "scenario_A = parse_reserved_sector (sample_image 8)"

text \<open>The four dictionaries that the walk of the sample volume returns.\<close>

definition sub_entry :: dir_entry where
  "sub_entry = \<lparr> parent = [], dir_cluster = 2, entry_num = 0, dir_sectors = [72],
     entry_type = ''dir'', name = ''SUB'', deleted = False, content_cluster = Some 3,
     filesize = None, content_sectors = None, content = None, slack = None \<rparr>"

definition txt_entry :: dir_entry where
  "txt_entry = \<lparr> parent = [], dir_cluster = 2, entry_num = 1, dir_sectors = [72],
     entry_type = ''other'', name = ''A.TXT'', deleted = False, content_cluster = Some 4,
     filesize = Some 5, content_sectors = Some [74, 77],
     content = Some [CHR ''b'', CHR 0x27, CHR ''h'', CHR ''e'', CHR ''l'', CHR ''l'', CHR ''o'',
                     CHR 0x27],
     slack = Some (Some (py_str (replicate 32 0))) \<rparr>"

definition deep_entry :: dir_entry where
  "deep_entry = \<lparr> parent = ''/SUB'', dir_cluster = 3, entry_num = 0, dir_sectors = [73],
     entry_type = ''dir'', name = ''DEEP'', deleted = False, content_cluster = Some 5,
     filesize = None, content_sectors = None, content = None, slack = None \<rparr>"

definition b_entry :: dir_entry where
  "b_entry = \<lparr> parent = ''/DEEP'', dir_cluster = 5, entry_num = 0, dir_sectors = [75],
     entry_type = ''other'', name = ''B'', deleted = False, content_cluster = Some 0,
     filesize = None, content_sectors = None, content = None, slack = None \<rparr>"

text \<open>A 32-byte record with the 16-bit value 1 at offset 20 and the 16-bit value 2 at offset 26.\<close>

definition high_low_entry :: "byte list" where
  "high_low_entry =
     [0x58, 0x20, 0x20, 0x20, 0x20, 0x20, 0x20, 0x20, 0x20, 0x20, 0x20, 0x20,
      0, 0, 0, 0, 0, 0, 0, 0, 1, 0, 0, 0, 0, 0, 2, 0, 0, 0, 0, 0]"

text \<open>
  The chains of the claims: a non-empty list of clusters in which the FAT entry of every
  cluster but the last is the next cluster, a value in \<open>(0, 0x0FFFFFF8]\<close>, and the FAT entry
  of the last is above \<open>0x0FFFFFF8\<close>.
\<close>

fun chain_of :: "Fat \<Rightarrow> int list \<Rightarrow> bool" where
  "chain_of s [] = False"
| "chain_of s [c] = (0x0FFFFFF8 < fat_entry s c)"
| "chain_of s (c # c' # cs) =
     (fat_entry s c = c' \<and> 0 < c' \<and> c' \<le> 0x0FFFFFF8 \<and> chain_of s (c' # cs))"

definition label_entry :: dir_entry where
  "label_entry = \<lparr> parent = [], dir_cluster = 2, entry_num = 0, dir_sectors = [72],
     entry_type = ''vol'', name = ''VOL'', deleted = False, content_cluster = None,
     filesize = None, content_sectors = None, content = None, slack = None \<rparr>"

text \<open>A volume whose boot sector says \<^verbatim>\<open>sectors_per_fat = 0\<close>.\<close>

definition nofat_image :: "byte list" where
  "nofat_image = image_of 34 0 [] (replicate 512 0)"

text \<open>
  The order of the walk's output, for the claims: every directory entry that is recursed into
  stands directly after the entries that the recursion into it returns.
\<close>

definition recursed :: "dir_entry \<Rightarrow> bool" where
  "recursed e \<longleftrightarrow> entry_type e = ''dir'' \<and> name e \<noteq> ''.'' \<and> name e \<noteq> ''..''"

definition postorder :: "hw4utils \<Rightarrow> Fat \<Rightarrow> dir_entry list \<Rightarrow> bool" where
  "postorder u s es \<longleftrightarrow>
     (\<forall>i < length es. recursed (es ! i) \<longrightarrow>
        (\<exists>cc sub f. content_cluster (es ! i) = Some cc
           \<and> parse_dir f u s cc (''/'' @ name (es ! i)) = Some (Inr sub)
           \<and> length sub \<le> i
           \<and> take (length sub) (drop (i - length sub) es) = sub))"

text \<open>The names of the entries of a walk that returned, in their order.\<close>

definition entry_names :: "(error + dir_entry list) option \<Rightarrow> string list" where
  "entry_names r = (case r of Some (Inr es) \<Rightarrow> map name es | _ \<Rightarrow> [])"

section \<open>Facts about the primitives\<close>

lemma unpack_nonneg: "0 \<le> unpack bs"
  by (induction bs) auto

lemma unpack_less: "unpack bs < 256 ^ length bs"
proof (induction bs)
  case Nil
  show ?case by simp
next
  case (Cons b bs)
  have "uint b < 256" using uint_bounded [of b] by simp
  moreover have "unpack bs + 1 \<le> 256 ^ length bs" using Cons by simp
  then have "256 * (unpack bs + 1) \<le> 256 * 256 ^ length bs" by (simp only: mult_le_cancel_left_pos)
  ultimately show ?case by (simp add: algebra_simps)
qed

lemma length_py_slice: "0 \<le> a \<Longrightarrow> 0 \<le> b \<Longrightarrow> length (py_slice xs a b) \<le> nat (b - a)"
  by (auto simp: py_slice_def Let_def)

lemma unpack_slice2_less: "0 \<le> a \<Longrightarrow> unpack (py_slice xs a (a + 2)) < 65536"
proof -
  assume a: "0 \<le> a"
  have "length (py_slice xs a (a + 2)) \<le> 2" using length_py_slice [OF a, of "a + 2" xs] a by simp
  then have "(256::int) ^ length (py_slice xs a (a + 2)) \<le> 256 ^ 2"
    by (intro power_increasing) auto
  with unpack_less [of "py_slice xs a (a + 2)"] show ?thesis by simp
qed

lemma add_low16_eq_or:
  assumes "0 \<le> l" "l < 65536"
  shows "push_bit 16 h + l = push_bit 16 h OR (l::int)"
proof -
  have "take_bit 16 l = l" using assms by (simp add: take_bit_int_eq_self)
  then have "push_bit 16 h + l = take_bit 16 l + push_bit 16 h" by simp
  also have "\<dots> = concat_bit 16 l h" by (simp add: concat_bit_eq)
  also have "\<dots> = take_bit 16 l OR push_bit 16 h" by (simp add: concat_bit_def)
  finally show ?thesis using \<open>take_bit 16 l = l\<close> by (simp add: or.commute)
qed

lemma follow_chain_stop: "0x0FFFFFF8 < ev \<Longrightarrow> follow_chain n s ev acc = Some acc"
  by (cases n) simp_all

section \<open>The sample images, evaluated\<close>

lemma length_boot_sector: "length (boot_sector n spf) = 512"
  by (simp add: boot_sector_def le32_def)

lemma unpack_le32: "n < 256 \<Longrightarrow> unpack (le32 n) = int n"
  by (simp add: le32_def uint_nat unat_of_nat)

lemma read_at_boot:
  "nat pos + nat n \<le> 512 \<Longrightarrow> read_at (image_of t spf fb d) pos n = read_at (boot_sector t spf) pos n"
  by (simp add: read_at_def image_of_def length_boot_sector)

lemma boot_image_of:
  assumes "t < 256" "spf < 256"
  shows "boot (parse_reserved_sector (image_of t spf fb d)) =
     \<lparr> bytes_per_sector = 512, sectors_per_cluster = 1, reserved_sectors = 32,
       number_of_fats = 1, total_sectors = int t, sectors_per_fat = int spf,
       root_dir_first_cluster = 2, bytes_per_cluster = 512, fat0_sector_start = 32,
       fat0_sector_end = 32 + int spf - 1, data_start = 32 + int spf, data_end = int t - 1 \<rparr>"
proof -
  have "read_at (boot_sector t spf) 32 4 = le32 t" "read_at (boot_sector t spf) 36 4 = le32 spf"
    by (simp_all add: read_at_def boot_sector_def le32_def)
  moreover have "unpack (read_at (boot_sector t spf) 11 2) = 512"
    "unpack (read_at (boot_sector t spf) 13 1) = 1"
    "unpack (read_at (boot_sector t spf) 14 2) = 32"
    "unpack (read_at (boot_sector t spf) 16 1) = 1"
    "unpack (read_at (boot_sector t spf) 44 4) = 2"
    by (simp_all add: read_at_def boot_sector_def le32_def)
  ultimately show ?thesis
    using assms by (simp add: parse_reserved_sector_def read_at_boot unpack_le32 Let_def)
qed

lemma file_bytes_parse: "file_bytes (parse_reserved_sector f) = f"
  by (simp add: parse_reserved_sector_def Let_def)

lemma fat_image_of:
  assumes "t < 256" "spf < 256" "length fb \<le> spf * 512"
  shows "fat (parse_reserved_sector (image_of t spf fb d)) = fb @ replicate (spf * 512 - length fb) 0"
proof -
  have b: "bytes_per_sector (boot (parse_reserved_sector (image_of t spf fb d))) = 512"
    "reserved_sectors (boot (parse_reserved_sector (image_of t spf fb d))) = 32"
    "sectors_per_fat (boot (parse_reserved_sector (image_of t spf fb d))) = int spf"
    using boot_image_of [OF assms(1,2)] by simp_all
  have "fat (parse_reserved_sector (image_of t spf fb d))
      = read_at (image_of t spf fb d) (32 * 512) (int spf * 512)"
    using b by (simp add: parse_reserved_sector_def Let_def)
  also have "\<dots> = fb @ replicate (spf * 512 - length fb) 0"
    using assms(3) by (simp add: read_at_def image_of_def length_boot_sector nat_mult_distrib)
  finally show ?thesis .
qed

lemma seek_read_image_of:
  assumes "length fb \<le> spf * 512"
  shows "seek_read (image_of t spf fb d) ((32 + int spf + int k) * 512) 512
           = Inr (take 512 (drop (k * 512) d))"
proof -
  have "nat ((32 + int spf + int k) * 512) = 512 + 31 * 512 + spf * 512 + k * 512"
    by (simp add: nat_add_distrib nat_mult_distrib)
  then show ?thesis
    using assms by (simp add: seek_read_def image_of_def length_boot_sector)
qed

lemma length_sample_fat: "length sample_fat = 36"
  by (simp add: sample_fat_def)

lemma length_clusters:
  "length root_cluster = 512" "length sub_cluster = 512" "length file_cluster = 512"
  "length deep_cluster = 512" "length lost_cluster = 512"
  by (simp_all add: root_cluster_def sub_cluster_def file_cluster_def deep_cluster_def
        lost_cluster_def raw_entry_def)

lemma boot_sample_fs:
  "boot sample_fs =
     \<lparr> bytes_per_sector = 512, sectors_per_cluster = 1, reserved_sectors = 32,
       number_of_fats = 1, total_sectors = 79, sectors_per_fat = 40,
       root_dir_first_cluster = 2, bytes_per_cluster = 512, fat0_sector_start = 32,
       fat0_sector_end = 71, data_start = 72, data_end = 78 \<rparr>"
  by (simp add: sample_fs_def sample_image_def boot_image_of)

lemma boot_scenario_A:
  "boot scenario_A =
     \<lparr> bytes_per_sector = 512, sectors_per_cluster = 1, reserved_sectors = 32,
       number_of_fats = 1, total_sectors = 47, sectors_per_fat = 8,
       root_dir_first_cluster = 2, bytes_per_cluster = 512, fat0_sector_start = 32,
       fat0_sector_end = 39, data_start = 40, data_end = 46 \<rparr>"
  by (simp add: scenario_A_def sample_image_def boot_image_of)

lemma fat_sample_fs: "fat sample_fs = sample_fat @ replicate 20444 0"
  by (simp add: sample_fs_def sample_image_def fat_image_of length_sample_fat)

lemma fat_entry_sample_fs:
  "fat_entry sample_fs 0 = 0xFFFFFFF8"
  "fat_entry sample_fs 2 = 0x0FFFFFFF"
  "fat_entry sample_fs 3 = 0x0FFFFFFF"
  "fat_entry sample_fs 4 = 7"
  "fat_entry sample_fs 5 = 0x0FFFFFFF"
  "fat_entry sample_fs 6 = 0"
  "fat_entry sample_fs 7 = 0x0FFFFFFF"
  "fat_entry sample_fs 8 = 0x2000"
  "fat_entry sample_fs 0x2000 = 0"
  by (simp_all add: fat_entry_def fat_sample_fs py_slice_def sample_fat_def)

lemma cluster_sectors_sample_fs: "cluster_sectors sample_fs c = [70 + c]"
  by (simp add: cluster_sectors_def to_sector_def end_sector_def boot_sample_fs)

lemma sector_sample_fs:
  "seek_read (file_bytes sample_fs) (72 * 512) 512 = Inr root_cluster"
  "seek_read (file_bytes sample_fs) (73 * 512) 512 = Inr sub_cluster"
  "seek_read (file_bytes sample_fs) (74 * 512) 512 = Inr file_cluster"
  "seek_read (file_bytes sample_fs) (75 * 512) 512 = Inr deep_cluster"
  "seek_read (file_bytes sample_fs) (76 * 512) 512 = Inr lost_cluster"
  "seek_read (file_bytes sample_fs) (77 * 512) 512 = Inr (replicate 512 0)"
  using seek_read_image_of [where fb = sample_fat and spf = 40 and t = 79 and k = 0]
    seek_read_image_of [where fb = sample_fat and spf = 40 and t = 79 and k = 1]
    seek_read_image_of [where fb = sample_fat and spf = 40 and t = 79 and k = 2]
    seek_read_image_of [where fb = sample_fat and spf = 40 and t = 79 and k = 3]
    seek_read_image_of [where fb = sample_fat and spf = 40 and t = 79 and k = 4]
    seek_read_image_of [where fb = sample_fat and spf = 40 and t = 79 and k = 5]
  by (simp_all add: sample_fs_def file_bytes_parse sample_image_def length_sample_fat length_clusters)

lemma get_sectors_sample_fs:
  "get_sectors (Suc n) sample_fs 2 = Some (Inr [72])"
  "get_sectors (Suc n) sample_fs 3 = Some (Inr [73])"
  "get_sectors (Suc n) sample_fs 4 = Some (Inr [74, 77])"
  "get_sectors (Suc n) sample_fs 5 = Some (Inr [75])"
  "get_sectors (Suc n) sample_fs 6 = Some (Inr [])"
  by (simp_all add: get_sectors_def fat_entry_sample_fs cluster_sectors_sample_fs boot_sample_fs
        follow_chain_stop)

lemma retrieve_data_sample_fs:
  "retrieve_data (Suc n) sample_fs 2 ig = Some (Inr root_cluster)"
  "retrieve_data (Suc n) sample_fs 3 ig = Some (Inr sub_cluster)"
  "retrieve_data (Suc n) sample_fs 4 ig = Some (Inr (file_cluster @ replicate 512 0))"
  "retrieve_data (Suc n) sample_fs 5 ig = Some (Inr deep_cluster)"
  "retrieve_data (Suc n) sample_fs 6 ig = Some (Inr [])"
  using sector_sample_fs
  by (simp_all add: retrieve_data_def get_sectors_sample_fs boot_sample_fs)

lemma root_slices:
  "py_slice root_cluster 0 32
     = raw_entry [0x53, 0x55, 0x42, 0x20, 0x20, 0x20, 0x20, 0x20, 0x20, 0x20, 0x20] 0x10 [3, 0]
         [0, 0, 0, 0]"
  "py_slice root_cluster 32 64
     = raw_entry [0x41, 0x20, 0x20, 0x20, 0x20, 0x20, 0x20, 0x20, 0x54, 0x58, 0x54] 0x20 [4, 0]
         [5, 0, 0, 0]"
  "py_slice root_cluster 64 96 = replicate 32 0"
  by (simp_all add: py_slice_def root_cluster_def raw_entry_def)

lemma sub_slices:
  "py_slice sub_cluster 0 32
     = raw_entry [0x44, 0x45, 0x45, 0x50, 0x20, 0x20, 0x20, 0x20, 0x20, 0x20, 0x20] 0x10 [5, 0]
         [0, 0, 0, 0]"
  "py_slice sub_cluster 32 64 = replicate 32 0"
  by (simp_all add: py_slice_def sub_cluster_def raw_entry_def)

lemma deep_slices:
  "py_slice deep_cluster 0 32
     = raw_entry [0x42, 0x20, 0x20, 0x20, 0x20, 0x20, 0x20, 0x20, 0x20, 0x20, 0x20] 0x20 [0, 0]
         [0, 0, 0, 0]"
  "py_slice deep_cluster 32 64 = replicate 32 0"
  by (simp_all add: py_slice_def deep_cluster_def raw_entry_def)

lemma sample_utils_sel:
  "get_entry_type sample_utils = sample_entry_type" "parse_name sample_utils = sample_parse_name"
  by (simp_all add: sample_utils_def)

lemma py_str_hello:
  "py_str [0x68, 0x65, 0x6C, 0x6C, 0x6F]
     = [CHR ''b'', CHR 0x27, CHR ''h'', CHR ''e'', CHR ''l'', CHR ''l'', CHR ''o'', CHR 0x27]"
  by (simp add: py_str_def repr_byte_def char_of_def bit_Suc_0_iff)

lemma get_content_sample_fs:
  "get_content (Suc n) sample_fs 4 5
     = Some (Inr ([CHR ''b'', CHR 0x27, CHR ''h'', CHR ''e'', CHR ''l'', CHR ''l'', CHR ''o'',
                   CHR 0x27],
                  Some (py_str (replicate 32 0))))"
proof -
  have "py_slice (file_cluster @ replicate 512 0) 0 5 = [0x68, 0x65, 0x6C, 0x6C, 0x6F]"
    "py_slice (file_cluster @ replicate 512 0) 5 37 = replicate 32 0"
    by (simp_all add: py_slice_def file_cluster_def)
  moreover have "file_cluster @ replicate 512 0 \<noteq> []" by (simp add: file_cluster_def)
  ultimately show ?thesis
    by (simp add: get_content_def retrieve_data_sample_fs py_str_hello)
qed

lemmas decode_simps = raw_entry_def py_index_def sample_utils_sel sample_entry_type_def
  sample_parse_name_def rstrip_def get_first_cluster_def boot_sample_fs py_slice_def
  char_of_def bit_Suc_0_iff Let_def

lemma scan_root:
  "scan_entry (Suc n) sample_utils sample_fs 2 [] 0 = Some (Inr (Subdir sub_entry 3 ''/SUB''))"
  "scan_entry (Suc n) sample_utils sample_fs 2 [] 1 = Some (Inr (Plain txt_entry))"
  "scan_entry (Suc n) sample_utils sample_fs 2 [] 2 = Some (Inr Terminator)"
    apply (simp_all add: scan_entry_def retrieve_data_sample_fs get_sectors_sample_fs root_slices
      get_content_sample_fs)
   apply (simp_all add: decode_simps sub_entry_def txt_entry_def get_content_sample_fs
      get_sectors_sample_fs)
  done

lemma scan_sub:
  "scan_entry (Suc n) sample_utils sample_fs 3 ''/SUB'' 0
     = Some (Inr (Subdir deep_entry 5 ''/DEEP''))"
  "scan_entry (Suc n) sample_utils sample_fs 3 ''/SUB'' 1 = Some (Inr Terminator)"
   apply (simp_all add: scan_entry_def retrieve_data_sample_fs get_sectors_sample_fs sub_slices)
  apply (simp_all add: decode_simps deep_entry_def)
  done

lemma scan_deep:
  "scan_entry (Suc n) sample_utils sample_fs 5 ''/DEEP'' 0 = Some (Inr (Plain b_entry))"
  "scan_entry (Suc n) sample_utils sample_fs 5 ''/DEEP'' 1 = Some (Inr Terminator)"
   apply (simp_all add: scan_entry_def retrieve_data_sample_fs get_sectors_sample_fs deep_slices)
  apply (simp_all add: decode_simps b_entry_def)
  done

lemma parse_dir_sample_fs:
  "parse_dir (Suc (Suc (Suc (Suc n)))) sample_utils sample_fs 2 []
     = Some (Inr [b_entry, deep_entry, sub_entry, txt_entry])"
  by (simp add: parse_dir_def scan_root scan_sub scan_deep)

subsection \<open>Chains\<close>

lemma follow_chain_chain:
  "chain_of s (c # cs) \<Longrightarrow> length cs \<le> fuel \<Longrightarrow>
     follow_chain fuel s (fat_entry s c) acc = Some (acc @ concat (map (cluster_sectors s) cs))"
proof (induction cs arbitrary: c fuel acc)
  case Nil
  then show ?case by (simp add: follow_chain_stop)
next
  case (Cons c' cs)
  from Cons.prems(2) obtain f where f: "fuel = Suc f" "length cs \<le> f"
    by (cases fuel) auto
  from Cons.prems(1) have e: "fat_entry s c = c'" "c' \<le> 0x0FFFFFF8" "chain_of s (c' # cs)"
    by auto
  show ?case
    using Cons.IH [OF e(3) f(2), of "acc @ cluster_sectors s c'"] e(1,2) f(1) by simp
qed

lemma chain_suffix: "chain_of s (xs @ c # suf) \<Longrightarrow> chain_of s (c # suf)"
proof (induction xs)
  case Nil
  then show ?case by simp
next
  case (Cons x xs)
  then show ?case by (cases xs) auto
qed

lemma chain_unique: "chain_of s (c # xs) \<Longrightarrow> chain_of s (c # ys) \<Longrightarrow> xs = ys"
proof (induction xs arbitrary: c ys)
  case Nil
  then show ?case by (cases ys) auto
next
  case (Cons x xs)
  then show ?case by (cases ys) auto
qed

lemma chain_distinct: "chain_of s cs \<Longrightarrow> distinct cs"
proof (induction cs)
  case Nil
  then show ?case by simp
next
  case (Cons c cs)
  show ?case
  proof (cases cs)
    case Nil
    then show ?thesis by simp
  next
    case (Cons c' rest)
    with Cons.prems have tl: "chain_of s cs" by simp
    have "c \<notin> set cs"
    proof
      assume "c \<in> set cs"
      then obtain pre suf where split: "cs = pre @ c # suf" by (auto simp: in_set_conv_decomp)
      with tl have "chain_of s (c # suf)" using chain_suffix by blast
      with Cons.prems have "cs = suf" using chain_unique by blast
      with split show False by simp
    qed
    with Cons.IH [OF tl] show ?thesis by simp
  qed
qed

lemma set_cluster_sectors:
  "set (cluster_sectors s c) = {to_sector s c .. to_sector s c + sectors_per_cluster (boot s) - 1}"
  by (simp add: cluster_sectors_def end_sector_def)

lemma length_cluster_sectors:
  "length (cluster_sectors s c) = nat (sectors_per_cluster (boot s))"
  by (simp add: cluster_sectors_def end_sector_def)

lemma cluster_sectors_disjoint:
  assumes "c \<noteq> c'"
  shows "set (cluster_sectors s c) \<inter> set (cluster_sectors s c') = {}"
proof -
  have less: "{to_sector s a .. to_sector s a + sectors_per_cluster (boot s) - 1}
              \<inter> {to_sector s b .. to_sector s b + sectors_per_cluster (boot s) - 1} = {}"
    if "a < b" for a b
  proof (rule ccontr)
    assume "\<not> ?thesis"
    then obtain x where "x \<in> {to_sector s a .. to_sector s a + sectors_per_cluster (boot s) - 1}
              \<inter> {to_sector s b .. to_sector s b + sectors_per_cluster (boot s) - 1}"
      by blast
    then have x: "to_sector s a \<le> x" "x \<le> to_sector s a + sectors_per_cluster (boot s) - 1"
      "to_sector s b \<le> x" "x \<le> to_sector s b + sectors_per_cluster (boot s) - 1"
      by simp_all
    then have pos: "0 < sectors_per_cluster (boot s)" by linarith
    from that have "a - 2 + 1 \<le> b - 2" by simp
    then have "(a - 2 + 1) * sectors_per_cluster (boot s) \<le> (b - 2) * sectors_per_cluster (boot s)"
      using pos by (intro mult_right_mono) auto
    then have "to_sector s a + sectors_per_cluster (boot s) \<le> to_sector s b"
      by (simp add: to_sector_def algebra_simps)
    with x show False by linarith
  qed
  from assms consider "c < c'" | "c' < c" by linarith
  then show ?thesis
  proof cases
    case 1
    then show ?thesis using less [of c c'] by (simp add: set_cluster_sectors)
  next
    case 2
    then show ?thesis using less [of c' c] by (simp add: set_cluster_sectors Int_commute)
  qed
qed

lemma distinct_chain_sectors:
  "distinct cs \<Longrightarrow> distinct (concat (map (cluster_sectors s) cs))"
proof (induction cs)
  case Nil
  then show ?case by simp
next
  case (Cons c cs)
  have "set (cluster_sectors s c) \<inter> set (cluster_sectors s c') = {}" if "c' \<in> set cs" for c'
    using that Cons.prems cluster_sectors_disjoint [of c c' s] by auto
  moreover have "distinct (cluster_sectors s c)" by (simp add: cluster_sectors_def)
  ultimately show ?case using Cons by auto
qed

lemma length_chain_sectors:
  "length (concat (map (cluster_sectors s) cs)) = length cs * nat (sectors_per_cluster (boot s))"
  by (induction cs) (simp_all add: length_cluster_sectors)

lemma py_slice_past_end:
  "int (length xs) \<le> a \<Longrightarrow> a \<le> b \<Longrightarrow> py_slice xs a b = []"
  by (simp add: py_slice_def Let_def)

subsection \<open>The volume with no total sector count\<close>

lemma boot_label_image:
  "boot (parse_reserved_sector label_image) =
     \<lparr> bytes_per_sector = 512, sectors_per_cluster = 1, reserved_sectors = 32,
       number_of_fats = 1, total_sectors = 0, sectors_per_fat = 40,
       root_dir_first_cluster = 2, bytes_per_cluster = 512, fat0_sector_start = 32,
       fat0_sector_end = 71, data_start = 72, data_end = - 1 \<rparr>"
  by (simp add: label_image_def boot_image_of)

lemma get_sectors_label_image:
  "get_sectors (Suc n) (parse_reserved_sector label_image) 2 = Some (Inr [72])"
proof -
  have "fat (parse_reserved_sector label_image)
      = ([0xF8, 0xFF, 0xFF, 0xFF] @ [0xFF, 0xFF, 0xFF, 0x0F] @ [0xFF, 0xFF, 0xFF, 0x0F])
          @ replicate (40 * 512 - 12) 0"
    unfolding label_image_def by (subst fat_image_of) simp_all
  then have "fat_entry (parse_reserved_sector label_image) 2 = 0x0FFFFFFF"
    by (simp add: fat_entry_def py_slice_def)
  then show ?thesis
    by (simp add: get_sectors_def boot_label_image cluster_sectors_def to_sector_def
        end_sector_def follow_chain_stop)
qed

lemma retrieve_data_label_image:
  "retrieve_data (Suc n) (parse_reserved_sector label_image) 2 ig
     = Some (Inr (raw_entry [0x56, 0x4F, 0x4C, 0x20, 0x20, 0x20, 0x20, 0x20, 0x20, 0x20, 0x20]
                    0x08 [0, 0] [0, 0, 0, 0] @ replicate 480 0))"
proof -
  have "seek_read (file_bytes (parse_reserved_sector label_image)) (72 * 512) 512
      = Inr (raw_entry [0x56, 0x4F, 0x4C, 0x20, 0x20, 0x20, 0x20, 0x20, 0x20, 0x20, 0x20]
                    0x08 [0, 0] [0, 0, 0, 0] @ replicate 480 0)"
    using seek_read_image_of [where spf = 40 and k = 0
        and fb = "[0xF8, 0xFF, 0xFF, 0xFF] @ [0xFF, 0xFF, 0xFF, 0x0F] @ [0xFF, 0xFF, 0xFF, 0x0F]"
        and t = 0]
    by (simp add: file_bytes_parse label_image_def raw_entry_def)
  then show ?thesis
    by (simp add: retrieve_data_def get_sectors_label_image boot_label_image)
qed

lemma scan_label_image:
  "scan_entry (Suc n) sample_utils (parse_reserved_sector label_image) 2 [] 0
     = Some (Inr (Plain label_entry))"
  "scan_entry (Suc n) sample_utils (parse_reserved_sector label_image) 2 [] 1
     = Some (Inr Terminator)"
   apply (simp_all add: scan_entry_def retrieve_data_label_image get_sectors_label_image)
   apply (simp_all add: raw_entry_def py_index_def sample_utils_sel sample_entry_type_def
      sample_parse_name_def rstrip_def py_slice_def char_of_def bit_Suc_0_iff Let_def
      label_entry_def)
  done

lemma get_sectors_no_fat:
  "sectors_per_fat (boot s) = 0 \<Longrightarrow> get_sectors fuel s number = Some (Inl AssertionError)"
  by (simp add: get_sectors_def)

subsection \<open>One iteration of the scan\<close>

lemma scan_entry_Plain:
  assumes "scan_entry fuel u s cluster par num = Some (Inr (Plain e))"
  shows "parent e = par"
    and "\<not> (entry_type e = ''dir'' \<and> name e \<noteq> ''.'' \<and> name e \<noteq> ''..'')"
  using assms
  by (auto simp: scan_entry_def Let_def split: option.splits sum.splits if_splits prod.splits)

lemma scan_entry_Subdir:
  assumes "scan_entry fuel u s cluster par num = Some (Inr (Subdir e cc child))"
  shows "parent e = par" and "child = ''/'' @ name e" and "entry_type e = ''dir''"
    and "name e \<noteq> ''.''" and "name e \<noteq> ''..''" and "content_cluster e = Some cc"
  using assms
  by (auto simp: scan_entry_def Let_def split: option.splits sum.splits if_splits prod.splits)

lemma scan_entry_Terminator:
  "scan_entry fuel u s cluster par num = Some (Inr Terminator) \<longleftrightarrow>
     (\<exists>data secs tag. retrieve_data fuel s cluster True = Some (Inr data)
        \<and> get_sectors fuel s cluster = Some (Inr secs)
        \<and> py_index (py_slice data (32 * num) (32 * num + 32)) 11 = Inr tag
        \<and> get_entry_type u tag = ''0x0'')"
  by (auto simp: scan_entry_def Let_def split: option.splits sum.splits if_splits prod.splits)

subsection \<open>The loop\<close>

lemma parse_dir_loop_Suc_cases:
  assumes "parse_dir_loop (Suc fuel) u s cluster par num d ua des = Some (Inr es)"
  obtains (flags) "d" and "ua" and "es = des"
  | (terminator) "scan_entry (Suc fuel) u s cluster par num = Some (Inr Terminator)"
      and "es = des"
  | (plain) e where "scan_entry (Suc fuel) u s cluster par num = Some (Inr (Plain e))"
      and "parse_dir_loop fuel u s cluster par (num + 1) d ua (des @ [e]) = Some (Inr es)"
  | (subdir) e cc child sub where
      "scan_entry (Suc fuel) u s cluster par num = Some (Inr (Subdir e cc child))"
      and "parse_dir_loop fuel u s cc child 0 False False [] = Some (Inr sub)"
      and "parse_dir_loop fuel u s cluster par (num + 1) True ua ((des @ sub) @ [e]) = Some (Inr es)"
  using assms
  by (auto split: if_splits option.splits sum.splits step.splits)

lemma parse_dir_loop_flag:
  "parse_dir_loop fuel u s cluster par num d False des
     = parse_dir_loop fuel u s cluster par num d' False des"
proof (induction fuel arbitrary: cluster par num d d' des)
  case 0
  show ?case by simp
next
  case (Suc fuel)
  have "parse_dir_loop fuel u s cluster par (num + 1) d False xs
      = parse_dir_loop fuel u s cluster par (num + 1) d' False xs" for xs
    by (rule Suc.IH)
  then show ?case
    by (simp split: option.splits sum.splits step.splits)
qed


lemma postorder_append:
  assumes "postorder u s xs" and "postorder u s ys"
  shows "postorder u s (xs @ ys)"
  unfolding postorder_def
proof (intro allI impI)
  fix i assume i: "i < length (xs @ ys)" and r: "recursed ((xs @ ys) ! i)"
  show "\<exists>cc sub f. content_cluster ((xs @ ys) ! i) = Some cc
           \<and> parse_dir f u s cc (''/'' @ name ((xs @ ys) ! i)) = Some (Inr sub)
           \<and> length sub \<le> i
           \<and> take (length sub) (drop (i - length sub) (xs @ ys)) = sub"
  proof (cases "i < length xs")
    case True
    with r have "recursed (xs ! i)" by (simp add: nth_append)
    with assms(1) True obtain cc sub f where h: "content_cluster (xs ! i) = Some cc"
      "parse_dir f u s cc (''/'' @ name (xs ! i)) = Some (Inr sub)" "length sub \<le> i"
      "take (length sub) (drop (i - length sub) xs) = sub"
      unfolding postorder_def by blast
    have "take (length sub) (drop (i - length sub) (xs @ ys)) = sub"
      using h(3,4) True by simp
    with h True show ?thesis by (auto simp: nth_append)
  next
    case False
    define j where "j = i - length xs"
    have ij: "i = length xs + j" "j < length ys" using False i by (auto simp: j_def)
    with r have "recursed (ys ! j)" by (simp add: nth_append)
    with assms(2) ij obtain cc sub f where h: "content_cluster (ys ! j) = Some cc"
      "parse_dir f u s cc (''/'' @ name (ys ! j)) = Some (Inr sub)" "length sub \<le> j"
      "take (length sub) (drop (j - length sub) ys) = sub"
      unfolding postorder_def by blast
    have "take (length sub) (drop (i - length sub) (xs @ ys)) = sub"
      using h(3,4) ij by simp
    with h ij show ?thesis by (auto simp: nth_append)
  qed
qed

lemma postorder_plain: "\<not> recursed e \<Longrightarrow> postorder u s [e]"
  by (simp add: postorder_def)

lemma postorder_subdir:
  assumes "postorder u s sub" and "content_cluster e = Some cc"
    and "parse_dir f u s cc (''/'' @ name e) = Some (Inr sub)"
  shows "postorder u s (sub @ [e])"
  unfolding postorder_def
proof (intro allI impI)
  fix i assume i: "i < length (sub @ [e])" and r: "recursed ((sub @ [e]) ! i)"
  show "\<exists>cc sub' f. content_cluster ((sub @ [e]) ! i) = Some cc
           \<and> parse_dir f u s cc (''/'' @ name ((sub @ [e]) ! i)) = Some (Inr sub')
           \<and> length sub' \<le> i
           \<and> take (length sub') (drop (i - length sub') (sub @ [e])) = sub'"
  proof (cases "i < length sub")
    case True
    with r have "recursed (sub ! i)" by (simp add: nth_append)
    with assms(1) True obtain c' sub' f' where h: "content_cluster (sub ! i) = Some c'"
      "parse_dir f' u s c' (''/'' @ name (sub ! i)) = Some (Inr sub')" "length sub' \<le> i"
      "take (length sub') (drop (i - length sub') sub) = sub'"
      unfolding postorder_def by blast
    have "take (length sub') (drop (i - length sub') (sub @ [e])) = sub'"
      using h(3,4) True by simp
    with h True show ?thesis by (auto simp: nth_append)
  next
    case False
    with i have "i = length sub" by simp
    with assms(2,3) show ?thesis by auto
  qed
qed

lemma parse_dir_loop_postorder:
  "parse_dir_loop fuel u s cluster par num d ua des = Some (Inr es) \<Longrightarrow>
     \<exists>new. es = des @ new \<and> postorder u s new"
proof (induction fuel arbitrary: cluster par num d ua des es)
  case 0
  then show ?case by (auto simp: postorder_def split: if_splits)
next
  case (Suc fuel)
  from Suc.prems show ?case
  proof (cases rule: parse_dir_loop_Suc_cases)
    case flags
    then show ?thesis by (simp add: postorder_def)
  next
    case terminator
    then show ?thesis by (simp add: postorder_def)
  next
    case (plain e)
    from Suc.IH [OF plain(2)] obtain new where new: "es = (des @ [e]) @ new" "postorder u s new"
      by blast
    have "\<not> recursed e" using scan_entry_Plain(2) [OF plain(1)] by (simp add: recursed_def)
    then have "postorder u s [e]" by (rule postorder_plain)
    then have "postorder u s ([e] @ new)" using new(2) by (rule postorder_append)
    with new(1) show ?thesis by auto
  next
    case (subdir e cc child sub)
    note e = scan_entry_Subdir [OF subdir(1)]
    from Suc.IH [OF subdir(2)] have ps: "postorder u s sub" by auto
    have rec: "parse_dir fuel u s cc (''/'' @ name e) = Some (Inr sub)"
      using subdir(2) e(2) by (simp add: parse_dir_def)
    have block: "postorder u s (sub @ [e])" using ps e(6) rec by (rule postorder_subdir)
    from Suc.IH [OF subdir(3)] obtain new where
      new: "es = ((des @ sub) @ [e]) @ new" "postorder u s new"
      by blast
    have "postorder u s ((sub @ [e]) @ new)" using block new(2) by (rule postorder_append)
    with new(1) show ?thesis by auto
  qed
qed

lemma parse_dir_loop_terminator:
  "parse_dir_loop fuel u s cluster par num d False des = Some (Inr es) \<Longrightarrow>
     \<exists>m f. num \<le> m \<and> f \<le> fuel \<and> scan_entry f u s cluster par m = Some (Inr Terminator)
       \<and> (\<forall>j. num \<le> j \<and> j < m \<longrightarrow>
             (\<exists>f' st. f' \<le> fuel \<and> scan_entry f' u s cluster par j = Some (Inr st)
                \<and> st \<noteq> Terminator))"
proof (induction fuel arbitrary: num d des es)
  case 0
  then show ?case by simp
next
  case (Suc fuel)
  have step: ?case
    if here: "scan_entry (Suc fuel) u s cluster par num = Some (Inr st)" "st \<noteq> Terminator"
      and rest: "parse_dir_loop fuel u s cluster par (num + 1) d' False des' = Some (Inr es)"
    for st d' des'
  proof -
    from Suc.IH [OF rest] obtain m f where m: "num + 1 \<le> m" "f \<le> fuel"
      "scan_entry f u s cluster par m = Some (Inr Terminator)"
      "\<forall>j. num + 1 \<le> j \<and> j < m \<longrightarrow>
             (\<exists>f' st. f' \<le> fuel \<and> scan_entry f' u s cluster par j = Some (Inr st)
                \<and> st \<noteq> Terminator)"
      by blast
    have "\<exists>f' st. f' \<le> Suc fuel \<and> scan_entry f' u s cluster par j = Some (Inr st)
                \<and> st \<noteq> Terminator" if "num \<le> j" "j < m" for j
    proof (cases "j = num")
      case True
      with here show ?thesis by blast
    next
      case False
      with that m(4) obtain f' st' where "f' \<le> fuel"
        "scan_entry f' u s cluster par j = Some (Inr st')" "st' \<noteq> Terminator"
        by (metis add1_zle_eq order_le_less)
      then show ?thesis by (intro exI [of _ f'] exI [of _ st']) simp
    qed
    with m(1,2,3) show ?thesis
      by (intro exI [of _ m] exI [of _ f]) auto
  qed
  from Suc.prems show ?case
  proof (cases rule: parse_dir_loop_Suc_cases)
    case flags
    then show ?thesis by simp
  next
    case terminator
    then show ?thesis by (intro exI [of _ num] exI [of _ "Suc fuel"]) auto
  next
    case (plain e)
    then show ?thesis by (intro step [of "Plain e"]) simp_all
  next
    case (subdir e cc child sub)
    then show ?thesis by (intro step [of "Subdir e cc child"]) simp_all
  qed
qed

subsection \<open>More of the sample images\<close>

lemma parse_dir_sample_4:
  "parse_dir 4 sample_utils sample_fs 2 [] = Some (Inr [b_entry, deep_entry, sub_entry, txt_entry])"
  using parse_dir_sample_fs [of 0] by (simp add: eval_nat_numeral)

lemma parse_dir_sample_sub:
  "parse_dir 3 sample_utils sample_fs 3 ''/SUB'' = Some (Inr [b_entry, deep_entry])"
  by (simp add: eval_nat_numeral parse_dir_def scan_sub scan_deep)

lemma parse_dir_scenario_A:
  "parse_dir (Suc n) u scenario_A 2 par = Some (Inl AssertionError)"
  by (simp add: parse_dir_def scan_entry_def retrieve_data_def get_sectors_def boot_scenario_A)

lemma get_content_scenario_A:
  "get_content fuel scenario_A 4 5 = Some (Inl AssertionError)"
  by (simp add: get_content_def retrieve_data_def get_sectors_def boot_scenario_A)

lemma boot_truncated_image:
  "boot (parse_reserved_sector truncated_image) =
     \<lparr> bytes_per_sector = 512, sectors_per_cluster = 1, reserved_sectors = 32,
       number_of_fats = 1, total_sectors = 41, sectors_per_fat = 40,
       root_dir_first_cluster = 2, bytes_per_cluster = 512, fat0_sector_start = 32,
       fat0_sector_end = 71, data_start = 72, data_end = 40 \<rparr>"
  by (simp add: truncated_image_def boot_image_of)

lemma get_sectors_truncated_image:
  "get_sectors (Suc n) (parse_reserved_sector truncated_image) 2 = Some (Inr [72])"
proof -
  have "fat (parse_reserved_sector truncated_image)
      = ([0xF8, 0xFF, 0xFF, 0xFF] @ [0xFF, 0xFF, 0xFF, 0x0F] @ [0xFF, 0xFF, 0xFF, 0x0F])
          @ replicate (40 * 512 - 12) 0"
    unfolding truncated_image_def by (subst fat_image_of) simp_all
  then have "fat_entry (parse_reserved_sector truncated_image) 2 = 0x0FFFFFFF"
    by (simp add: fat_entry_def py_slice_def)
  then show ?thesis
    by (simp add: get_sectors_def boot_truncated_image cluster_sectors_def to_sector_def
        end_sector_def follow_chain_stop)
qed

lemma get_content_truncated_image:
  "get_content (Suc n) (parse_reserved_sector truncated_image) 2 5
     = Some (Inr ([CHR ''b'', CHR 0x27, CHR 0x27], None))"
proof -
  have past: "seek_read (file_bytes (parse_reserved_sector truncated_image)) (72 * 512) k = Inr []"
    if "0 \<le> k" for k
    using that seek_read_image_of [where spf = 40 and k = 0 and d = "[]"
        and fb = "[0xF8, 0xFF, 0xFF, 0xFF] @ [0xFF, 0xFF, 0xFF, 0x0F] @ [0xFF, 0xFF, 0xFF, 0x0F]"
        and t = 41]
    by (simp add: file_bytes_parse truncated_image_def seek_read_def image_of_def
        length_boot_sector)
  have "py_str [] = [CHR ''b'', CHR 0x27, CHR 0x27]"
    by (simp add: py_str_def char_of_def bit_Suc_0_iff)
  then show ?thesis
    using past [of 512] past [of 5]
    by (simp add: get_content_def retrieve_data_def get_sectors_truncated_image
        boot_truncated_image to_sector_def)
qed

lemma py_slice_prefix: "0 \<le> n \<Longrightarrow> py_slice xs 0 n = take (nat n) xs"
  by (simp add: py_slice_def Let_def min_def)

lemma py_slice_window:
  "0 \<le> a \<Longrightarrow> 0 \<le> k \<Longrightarrow> py_slice xs a (a + k) = take (nat k) (drop (nat a) xs)"
  by (auto simp: py_slice_def Let_def min_def)

section \<open>The claims\<close>

text \<open>
  C1. For a cluster within the bound whose FAT entry is 0, \<^verbatim>\<open>_retrieve_data\<close> (the spec's
  \<open>read_chain\<close>) returns no bytes whatever \<^verbatim>\<open>ignore_unallocated\<close> is: the flag is never read.
  The claim, like the docstring of the function, asks for the bytes of the cluster itself when
  the flag is true. On the sample volume cluster 6 is unallocated and holds 512 bytes, which
  a read at \<open>to_sector 6\<close> returns, and \<^verbatim>\<open>_retrieve_data(6, True)\<close> is empty.
\<close>

theorem retrieve_data_unallocated:
  "fat_entry sample_fs 6 = 0
   \<and> retrieve_data 1 sample_fs 6 False = Some (Inr [])
   \<and> retrieve_data 1 sample_fs 6 True = Some (Inr [])
   \<and> seek_read (file_bytes sample_fs)
        (to_sector sample_fs 6 * bytes_per_sector (boot sample_fs))
        (bytes_per_sector (boot sample_fs) * sectors_per_cluster (boot sample_fs))
       = Inr lost_cluster
   \<and> length lost_cluster = 512"
  using sector_sample_fs(5) retrieve_data_sample_fs(5) [of 0]
  by (simp add: fat_entry_sample_fs to_sector_def boot_sample_fs length_clusters)

text \<open>
  C2, as stated: with \<^verbatim>\<open>total_sectors = 0\<close> or \<^verbatim>\<open>sectors_per_fat = 0\<close> parsing fails before
  the directory walk begins and no entry is enumerated. The parser validates nothing: on a
  volume with \<^verbatim>\<open>total_sectors = 0\<close> the walk runs and returns the volume label.
\<close>

theorem zero_total_sectors_counterexample:
  "total_sectors (fst (fsstat_main 2 sample_utils label_image)) = 0
   \<and> snd (fsstat_main 2 sample_utils label_image) = Some (Inr [label_entry])"
proof -
  have two: "2 = Suc (Suc 0)" by simp
  show ?thesis
    by (simp add: fsstat_main_def info_def parse_dir_def boot_label_image two scan_label_image)
qed

text \<open>
  C2, amended. Parsing the boot sector never fails. With \<^verbatim>\<open>sectors_per_fat = 0\<close> the walk
  from the root fails at its first step, the range assertion of \<^verbatim>\<open>_get_sectors\<close>, for every
  root cluster, after the geometry has been printed: no directory entry is enumerated.
\<close>

theorem zero_sectors_per_fat_fails:
  assumes "sectors_per_fat (boot (parse_reserved_sector f)) = 0"
  shows "fsstat_main (Suc fuel) u f
           = (boot (parse_reserved_sector f), Some (Inl AssertionError))"
  using assms
  by (simp add: fsstat_main_def info_def parse_dir_def scan_entry_def retrieve_data_def
      get_sectors_no_fat)

theorem zero_sectors_per_fat_fails_witness:
  "sectors_per_fat (boot (parse_reserved_sector nofat_image)) = 0
   \<and> snd (fsstat_main 1 sample_utils nofat_image) = Some (Inl AssertionError)"
proof -
  have h: "sectors_per_fat (boot (parse_reserved_sector nofat_image)) = 0"
    by (simp add: nofat_image_def boot_image_of)
  show ?thesis
    using zero_sectors_per_fat_fails [OF h, of 0 sample_utils] h by simp
qed




text \<open>
  C4, as stated: an entry is appended before the entries of the recursion into it, and in
  Scenario A the walk of cluster 2 returns \<^verbatim>\<open>SUB\<close>, the entries of cluster 3, then
  \<^verbatim>\<open>A.TXT\<close>. With the geometry of Scenario A the walk of cluster 2 fails the range assertion,
  since \<open>2 * 4 + 4\<close> is not below the 8 sectors of the FAT; and on the same volume with a
  FAT of 40 sectors \<^verbatim>\<open>SUB\<close> comes after the entries of cluster 3.
\<close>

theorem walk_order_counterexample:
  "parse_dir 4 sample_utils scenario_A 2 [] = Some (Inl AssertionError)
   \<and> entry_names (parse_dir 4 sample_utils sample_fs 2 []) = [''B'', ''DEEP'', ''SUB'', ''A.TXT'']"
  using parse_dir_scenario_A [of 3 sample_utils "[]"]
  by (simp add: parse_dir_sample_4 entry_names_def b_entry_def deep_entry_def sub_entry_def
      txt_entry_def)

text \<open>
  C4, amended. In the output of a walk that returns, every directory entry that is recursed
  into (its name is neither \<^verbatim>\<open>.\<close> nor \<^verbatim>\<open>..\<close>) stands directly after the entries that the
  walk of its content cluster returns. On the volume of Scenario A with a FAT of 40 sectors
  the walk of cluster 2 returns the entries of cluster 3 (\<^verbatim>\<open>B\<close>, \<^verbatim>\<open>DEEP\<close>), then \<^verbatim>\<open>SUB\<close>, then
  \<^verbatim>\<open>A.TXT\<close>; with the 8 sectors of Scenario A it fails the range assertion.
\<close>

theorem walk_postorder:
  "(parse_dir fuel u s cluster par = Some (Inr es) \<longrightarrow>
      (\<forall>i < length es.
          entry_type (es ! i) = ''dir'' \<and> name (es ! i) \<noteq> ''.'' \<and> name (es ! i) \<noteq> ''..'' \<longrightarrow>
          (\<exists>cc sub f. content_cluster (es ! i) = Some cc
             \<and> parse_dir f u s cc (''/'' @ name (es ! i)) = Some (Inr sub)
             \<and> length sub \<le> i
             \<and> take (length sub) (drop (i - length sub) es) = sub)))
   \<and> parse_dir 4 sample_utils sample_fs 2 []
       = Some (Inr [b_entry, deep_entry, sub_entry, txt_entry])
   \<and> parse_dir 3 sample_utils sample_fs 3 ''/SUB'' = Some (Inr [b_entry, deep_entry])
   \<and> parse_dir 4 sample_utils scenario_A 2 [] = Some (Inl AssertionError)"
proof (intro conjI impI)
  assume "parse_dir fuel u s cluster par = Some (Inr es)"
  then have "postorder u s es"
    using parse_dir_loop_postorder [of fuel u s cluster par 0 False False "[]" es]
    by (simp add: parse_dir_def)
  then show "\<forall>i < length es.
          entry_type (es ! i) = ''dir'' \<and> name (es ! i) \<noteq> ''.'' \<and> name (es ! i) \<noteq> ''..'' \<longrightarrow>
          (\<exists>cc sub f. content_cluster (es ! i) = Some cc
             \<and> parse_dir f u s cc (''/'' @ name (es ! i)) = Some (Inr sub)
             \<and> length sub \<le> i
             \<and> take (length sub) (drop (i - length sub) es) = sub)"
    by (simp add: postorder_def recursed_def)
next
  show "parse_dir 4 sample_utils scenario_A 2 [] = Some (Inl AssertionError)"
    using parse_dir_scenario_A [of 3 sample_utils "[]"] by simp
qed (rule parse_dir_sample_4 parse_dir_sample_sub)+

theorem walk_postorder_witness:
  "parse_dir 4 sample_utils sample_fs 2 [] = Some (Inr [b_entry, deep_entry, sub_entry, txt_entry])
   \<and> entry_type ([b_entry, deep_entry, sub_entry, txt_entry] ! 2) = ''dir''
   \<and> name ([b_entry, deep_entry, sub_entry, txt_entry] ! 2) = ''SUB''
   \<and> (\<exists>cc sub f. content_cluster sub_entry = Some cc
         \<and> parse_dir f sample_utils sample_fs cc ''/SUB'' = Some (Inr sub)
         \<and> length sub \<le> 2
         \<and> take (length sub) (drop (2 - length sub) [b_entry, deep_entry, sub_entry, txt_entry])
             = sub)"
proof -
  note h = parse_dir_sample_4
  have d: "entry_type ([b_entry, deep_entry, sub_entry, txt_entry] ! 2) = ''dir''"
    "name ([b_entry, deep_entry, sub_entry, txt_entry] ! 2) = ''SUB''"
    by (simp_all add: sub_entry_def)
  from walk_postorder [of 4 sample_utils sample_fs 2 "[]"
      "[b_entry, deep_entry, sub_entry, txt_entry]"] h
  have "\<forall>i < length [b_entry, deep_entry, sub_entry, txt_entry].
          entry_type ([b_entry, deep_entry, sub_entry, txt_entry] ! i) = ''dir''
          \<and> name ([b_entry, deep_entry, sub_entry, txt_entry] ! i) \<noteq> ''.''
          \<and> name ([b_entry, deep_entry, sub_entry, txt_entry] ! i) \<noteq> ''..'' \<longrightarrow>
          (\<exists>cc sub f. content_cluster ([b_entry, deep_entry, sub_entry, txt_entry] ! i) = Some cc
             \<and> parse_dir f sample_utils sample_fs cc
                 (''/'' @ name ([b_entry, deep_entry, sub_entry, txt_entry] ! i)) = Some (Inr sub)
             \<and> length sub \<le> i
             \<and> take (length sub) (drop (i - length sub)
                 [b_entry, deep_entry, sub_entry, txt_entry]) = sub)"
    by blast
  from this [rule_format, of 2] d
  have "\<exists>cc sub f. content_cluster sub_entry = Some cc
         \<and> parse_dir f sample_utils sample_fs cc ''/SUB'' = Some (Inr sub)
         \<and> length sub \<le> 2
         \<and> take (length sub) (drop (2 - length sub) [b_entry, deep_entry, sub_entry, txt_entry])
             = sub"
    by simp
  with h d show ?thesis by blast
qed

text \<open>
  C5, as stated: for a file entry with a non-empty chain the content is the first
  \<open>min(128, filesize)\<close> bytes of the buffer of the chain and the slack the 32 bytes of it from
  the offset \<open>filesize\<close>, and in Scenario A the file \<^verbatim>\<open>A.TXT\<close> has the content \<^verbatim>\<open>hello\<close>.
  With the geometry of Scenario A the extraction for cluster 4 fails the range assertion
  (\<open>4 * 4 + 4\<close> is not below 8). With a FAT of 40 sectors the content is the string
  \<^verbatim>\<open>b'hello'\<close>, the \<^verbatim>\<open>str\<close> of the bytes. And on the image cut off after its FAT, cluster 2
  has a chain of one sector that lies past the end of the file: the buffer is empty and the
  slack is \<^verbatim>\<open>None\<close>, not the \<^verbatim>\<open>str\<close> of an empty slice.
\<close>

theorem content_preview_counterexample:
  "get_content 1 scenario_A 4 5 = Some (Inl AssertionError)
   \<and> get_content 1 sample_fs 4 5
       = Some (Inr ([CHR ''b'', CHR 0x27, CHR ''h'', CHR ''e'', CHR ''l'', CHR ''l'', CHR ''o'',
                     CHR 0x27],
                    Some (py_str (replicate 32 0))))
   \<and> get_sectors 1 (parse_reserved_sector truncated_image) 2 = Some (Inr [72])
   \<and> get_content 1 (parse_reserved_sector truncated_image) 2 5
       = Some (Inr ([CHR ''b'', CHR 0x27, CHR 0x27], None))"
  using get_content_scenario_A [of 1] get_content_sample_fs [of 0]
    get_sectors_truncated_image [of 0] get_content_truncated_image [of 0]
  by simp

text \<open>
  C5, amended. When the read of the chain returns a buffer that is not empty, the content is
  the \<^verbatim>\<open>str\<close> of the first \<open>min(128, filesize)\<close> bytes of that buffer and the slack is the
  \<^verbatim>\<open>str\<close> of the at most 32 bytes of it from the offset \<open>filesize\<close>. On the volume of
  Scenario A with a FAT of 40 sectors the file \<^verbatim>\<open>A.TXT\<close>, of 5 bytes from cluster 4, has the
  content \<^verbatim>\<open>b'hello'\<close>.
\<close>

theorem get_content_allocated:
  "(retrieve_data fuel s cluster True = Some (Inr data) \<and> data \<noteq> [] \<and> 0 \<le> fsize \<longrightarrow>
      get_content fuel s cluster fsize
        = Some (Inr (py_str (take (nat (min 128 fsize)) data),
                     Some (py_str (take 32 (drop (nat fsize) data))))))
   \<and> get_content 1 sample_fs 4 5
       = Some (Inr ([CHR ''b'', CHR 0x27, CHR ''h'', CHR ''e'', CHR ''l'', CHR ''l'', CHR ''o'',
                     CHR 0x27],
                    Some (py_str (replicate 32 0))))"
proof (intro conjI impI)
  assume h: "retrieve_data fuel s cluster True = Some (Inr data) \<and> data \<noteq> [] \<and> 0 \<le> fsize"
  then have "py_slice data 0 (min 128 fsize) = take (nat (min 128 fsize)) data"
    by (intro py_slice_prefix) simp
  moreover have "py_slice data fsize (fsize + 32) = take 32 (drop (nat fsize) data)"
    using h py_slice_window [of fsize 32 data] by simp
  ultimately show "get_content fuel s cluster fsize
        = Some (Inr (py_str (take (nat (min 128 fsize)) data),
                     Some (py_str (take 32 (drop (nat fsize) data)))))"
    using h by (simp add: get_content_def Let_def)
next
  show "get_content 1 sample_fs 4 5
       = Some (Inr ([CHR ''b'', CHR 0x27, CHR ''h'', CHR ''e'', CHR ''l'', CHR ''l'', CHR ''o'',
                     CHR 0x27],
                    Some (py_str (replicate 32 0))))"
    using get_content_sample_fs [of 0] by simp
qed

theorem get_content_allocated_witness:
  "retrieve_data 1 sample_fs 4 True = Some (Inr (file_cluster @ replicate 512 0))
   \<and> file_cluster @ replicate 512 0 \<noteq> [] \<and> (0::int) \<le> 5
   \<and> get_content 1 sample_fs 4 5
       = Some (Inr (py_str (take (nat (min 128 5)) (file_cluster @ replicate 512 0)),
                    Some (py_str (take 32 (drop (nat 5) (file_cluster @ replicate 512 0))))))
   \<and> take (nat (min 128 5)) (file_cluster @ replicate 512 0) = [0x68, 0x65, 0x6C, 0x6C, 0x6F]"
proof -
  have h: "retrieve_data 1 sample_fs 4 True = Some (Inr (file_cluster @ replicate 512 0))"
    using retrieve_data_sample_fs(3) [of 0 True] by simp
  have n: "file_cluster @ replicate 512 0 \<noteq> []" by (simp add: file_cluster_def)
  have t: "take (nat (min 128 5)) (file_cluster @ replicate 512 0) = [0x68, 0x65, 0x6C, 0x6C, 0x6F]"
    by (simp add: file_cluster_def)
  from get_content_allocated [of 1 sample_fs 4 "file_cluster @ replicate 512 0" 5] h n
  have "get_content 1 sample_fs 4 5
       = Some (Inr (py_str (take (nat (min 128 5)) (file_cluster @ replicate 512 0)),
                    Some (py_str (take 32 (drop (nat 5) (file_cluster @ replicate 512 0))))))"
    by simp
  with h n t show ?thesis by simp
qed

text \<open>
  C6. For a chain of \<open>k\<close> clusters that starts at a cluster within the bound of
  \<^verbatim>\<open>_get_sectors\<close>, with enough fuel for its \<open>k - 1\<close> steps, \<^verbatim>\<open>_get_sectors\<close> returns the
  sector ranges \<open>to_sector c .. to_sector c + sectors_per_cluster - 1\<close> of the clusters of the
  chain in the order of the traversal: \<open>k * sectors_per_cluster\<close> sector numbers, with no
  duplicates. (Such a chain never visits a cluster twice: it is acyclic.)
\<close>

theorem get_sectors_chain:
  assumes "chain_of s (c # cs)"
    and "0 < c * 4 + 4" and "c * 4 + 4 < sectors_per_fat (boot s)"
    and "length cs \<le> fuel"
  shows "get_sectors fuel s c = Some (Inr (concat (map (cluster_sectors s) (c # cs))))
    \<and> length (concat (map (cluster_sectors s) (c # cs)))
        = length (c # cs) * nat (sectors_per_cluster (boot s))
    \<and> distinct (concat (map (cluster_sectors s) (c # cs)))
    \<and> (\<forall>x \<in> set (c # cs). cluster_sectors s x
          = [to_sector s x .. to_sector s x + sectors_per_cluster (boot s) - 1])"
proof -
  have nz: "fat_entry s c \<noteq> 0" using assms(1) by (cases cs) auto
  have "get_sectors fuel s c = Some (Inr (concat (map (cluster_sectors s) (c # cs))))"
    using follow_chain_chain [OF assms(1,4), of "cluster_sectors s c"] nz assms(2,3)
    by (simp add: get_sectors_def)
  moreover have "distinct (concat (map (cluster_sectors s) (c # cs)))"
    using chain_distinct [OF assms(1)] by (rule distinct_chain_sectors)
  ultimately show ?thesis
    using length_chain_sectors [of s "c # cs"]
    by (simp add: cluster_sectors_def end_sector_def)
qed

theorem get_sectors_chain_witness:
  "chain_of sample_fs [4, 7] \<and> 0 < (4::int) * 4 + 4 \<and> 4 * 4 + 4 < sectors_per_fat (boot sample_fs)
   \<and> get_sectors 1 sample_fs 4 = Some (Inr [74, 77])
   \<and> length [74, 77 :: int] = 2 * nat (sectors_per_cluster (boot sample_fs))
   \<and> distinct [74, 77 :: int]"
proof -
  have c: "chain_of sample_fs [4, 7]" by (simp add: fat_entry_sample_fs)
  have b: "0 < (4::int) * 4 + 4" "4 * 4 + 4 < sectors_per_fat (boot sample_fs)"
    by (simp_all add: boot_sample_fs)
  show ?thesis
    using get_sectors_chain [OF c b, of 1] c b
    by (simp add: cluster_sectors_sample_fs boot_sample_fs)
qed

text \<open>
  C7. The directory-entry decode computes \<open>content_cluster = (high16 << 16) | low16\<close>, with
  \<open>high16\<close> the little-endian 16-bit value at offset 20 of the record and \<open>low16\<close> the one at
  offset 26; the values 1 and 2 give 65538; and the decode fails with the range assertion (the
  spec's RangeError is the code's failed \<^verbatim>\<open>assert\<close>) exactly when \<open>content_cluster\<close> exceeds
  \<open>total_sectors / sectors_per_cluster\<close>. The source adds where the claim says "or": the two
  agree, since \<open>low16\<close> is below \<open>2 ^ 16\<close>. The quotient does not exist for
  \<open>sectors_per_cluster = 0\<close>, where the division raises ZeroDivisionError.
\<close>

theorem get_first_cluster_decode:
  "get_first_cluster s entry =
     (let high16 = unpack (py_slice entry 20 22);
          low16 = unpack (py_slice entry 26 28);
          content_cluster = push_bit 16 high16 OR low16
      in if sectors_per_cluster (boot s) = 0 then Inl ZeroDivisionError
         else if (of_int (total_sectors (boot s)) / of_int (sectors_per_cluster (boot s)) :: rat)
                 < of_int content_cluster
         then Inl AssertionError
         else Inr content_cluster)
   \<and> (unpack (py_slice entry 20 22) = 1 \<and> unpack (py_slice entry 26 28) = 2
        \<longrightarrow> push_bit 16 (unpack (py_slice entry 20 22)) OR unpack (py_slice entry 26 28) = 65538)"
proof -
  have "push_bit 16 (unpack (py_slice entry 20 22)) + unpack (py_slice entry 26 28)
      = push_bit 16 (unpack (py_slice entry 20 22)) OR unpack (py_slice entry 26 28)"
    using unpack_slice2_less [of 26 entry] unpack_nonneg [of "py_slice entry 26 28"]
    by (intro add_low16_eq_or) auto
  moreover have "push_bit 16 (1::int) OR 2 = 65538" by simp
  ultimately show ?thesis
    by (auto simp: get_first_cluster_def Let_def not_le)
qed

theorem get_first_cluster_decode_witness:
  "unpack (py_slice high_low_entry 20 22) = 1 \<and> unpack (py_slice high_low_entry 26 28) = 2
   \<and> get_first_cluster sample_fs high_low_entry = Inl AssertionError
   \<and> get_first_cluster (sample_fs\<lparr>boot := (boot sample_fs)\<lparr>total_sectors := 65538\<rparr>\<rparr>)
        high_low_entry = Inr 65538"
proof -
  have h: "unpack (py_slice high_low_entry 20 22) = 1" "unpack (py_slice high_low_entry 26 28) = 2"
    by (simp_all add: high_low_entry_def py_slice_def)
  show ?thesis
    using get_first_cluster_decode [of sample_fs high_low_entry]
      get_first_cluster_decode
        [of "sample_fs\<lparr>boot := (boot sample_fs)\<lparr>total_sectors := 65538\<rparr>\<rparr>" high_low_entry]
    by (simp add: h boot_sample_fs)
qed

text \<open>
  C8. \<^verbatim>\<open>_get_sectors\<close> (the spec's \<open>resolve_chain\<close>) fails with the range assertion for
  exactly the cluster numbers that violate \<open>0 < number * 4 + 4 < sectors_per_fat\<close>: the byte
  offset of the entry is compared with the number of sectors of the FAT as it is written,
  whatever the fuel, the size of the FAT in bytes and the number of clusters are.
\<close>

theorem get_sectors_bound:
  "get_sectors fuel s number = Some (Inl AssertionError)
     \<longleftrightarrow> \<not> (0 < number * 4 + 4 \<and> number * 4 + 4 < sectors_per_fat (boot s))"
  by (auto simp: get_sectors_def Let_def)

theorem get_sectors_bound_witness:
  "\<not> (0 < (2::int) * 4 + 4 \<and> 2 * 4 + 4 < sectors_per_fat (boot scenario_A))
   \<and> get_sectors 1 scenario_A 2 = Some (Inl AssertionError)
   \<and> (0 < (2::int) * 4 + 4 \<and> 2 * 4 + 4 < sectors_per_fat (boot sample_fs))
   \<and> get_sectors 1 sample_fs 2 \<noteq> Some (Inl AssertionError)"
  using get_sectors_bound [of 1 scenario_A 2] get_sectors_bound [of 1 sample_fs 2]
  by (simp add: boot_scenario_A boot_sample_fs)

text \<open>
  C9. The scan of a directory ends, with the list built so far, only at an entry whose
  type-tag byte, the byte at offset 11 of its 32-byte slice, is classified as the terminator
  (\<^verbatim>\<open>hex(0)\<close>): a walk that returns has read such an entry, after entries that are not
  terminators; an entry is the terminator exactly when that byte classifies so, whatever the
  other bytes are; and the flag \<^verbatim>\<open>is_dir\<close> has no effect on the loop while
  \<^verbatim>\<open>is_unallocated\<close> is false, which it is from the start and stays. (An exception ends the
  whole walk and returns nothing.)
\<close>

theorem scan_stops_at_terminator_only:
  "(parse_dir fuel u s cluster par = Some (Inr es) \<longrightarrow>
      (\<exists>m f. 0 \<le> m \<and> f \<le> fuel \<and> scan_entry f u s cluster par m = Some (Inr Terminator)
         \<and> (\<forall>j. 0 \<le> j \<and> j < m \<longrightarrow>
               (\<exists>f' st. f' \<le> fuel \<and> scan_entry f' u s cluster par j = Some (Inr st)
                  \<and> st \<noteq> Terminator))))
   \<and> (scan_entry fuel u s cluster par num = Some (Inr Terminator) \<longleftrightarrow>
        (\<exists>data secs tag. retrieve_data fuel s cluster True = Some (Inr data)
           \<and> get_sectors fuel s cluster = Some (Inr secs)
           \<and> py_index (py_slice data (32 * num) (32 * num + 32)) 11 = Inr tag
           \<and> get_entry_type u tag = ''0x0''))
   \<and> parse_dir_loop fuel u s cluster par num is_dir False des
       = parse_dir_loop fuel u s cluster par num False False des"
proof (intro conjI impI)
  assume "parse_dir fuel u s cluster par = Some (Inr es)"
  then show "\<exists>m f. 0 \<le> m \<and> f \<le> fuel \<and> scan_entry f u s cluster par m = Some (Inr Terminator)
         \<and> (\<forall>j. 0 \<le> j \<and> j < m \<longrightarrow>
               (\<exists>f' st. f' \<le> fuel \<and> scan_entry f' u s cluster par j = Some (Inr st)
                  \<and> st \<noteq> Terminator))"
    using parse_dir_loop_terminator [of fuel u s cluster par 0 False "[]" es]
    by (simp add: parse_dir_def)
next
  show "scan_entry fuel u s cluster par num = Some (Inr Terminator) \<longleftrightarrow>
        (\<exists>data secs tag. retrieve_data fuel s cluster True = Some (Inr data)
           \<and> get_sectors fuel s cluster = Some (Inr secs)
           \<and> py_index (py_slice data (32 * num) (32 * num + 32)) 11 = Inr tag
           \<and> get_entry_type u tag = ''0x0'')"
    by (rule scan_entry_Terminator)
next
  show "parse_dir_loop fuel u s cluster par num is_dir False des
       = parse_dir_loop fuel u s cluster par num False False des"
    by (rule parse_dir_loop_flag)
qed

theorem scan_stops_at_terminator_only_witness:
  "parse_dir 4 sample_utils sample_fs 2 [] = Some (Inr [b_entry, deep_entry, sub_entry, txt_entry])
   \<and> (\<exists>m f. 0 \<le> m \<and> f \<le> 4
         \<and> scan_entry f sample_utils sample_fs 2 [] m = Some (Inr Terminator))
   \<and> retrieve_data 1 sample_fs 2 True = Some (Inr root_cluster)
   \<and> py_index (py_slice root_cluster (32 * 2) (32 * 2 + 32)) 11 = Inr 0
   \<and> get_entry_type sample_utils 0 = ''0x0''
   \<and> scan_entry 1 sample_utils sample_fs 2 [] 2 = Some (Inr Terminator)"
proof -
  note h = parse_dir_sample_4
  note inst = scan_stops_at_terminator_only [where u = sample_utils and s = sample_fs
      and cluster = 2 and par = "[]" and is_dir = False and des = "[]"]
  from inst [where fuel = 4 and es = "[b_entry, deep_entry, sub_entry, txt_entry]"] h
  have "\<exists>m f. 0 \<le> m \<and> f \<le> 4
         \<and> scan_entry f sample_utils sample_fs 2 [] m = Some (Inr Terminator)
         \<and> (\<forall>j. 0 \<le> j \<and> j < m \<longrightarrow>
               (\<exists>f' st. f' \<le> 4 \<and> scan_entry f' sample_utils sample_fs 2 [] j = Some (Inr st)
                  \<and> st \<noteq> Terminator))"
    by blast
  then have first: "\<exists>m f. 0 \<le> m \<and> f \<le> 4
         \<and> scan_entry f sample_utils sample_fs 2 [] m = Some (Inr Terminator)"
    by blast
  have r: "retrieve_data 1 sample_fs 2 True = Some (Inr root_cluster)"
    using retrieve_data_sample_fs(1) [of 0 True] by simp
  have g: "get_sectors 1 sample_fs 2 = Some (Inr [72])"
    using get_sectors_sample_fs(1) [of 0] by simp
  have i: "py_index (py_slice root_cluster (32 * 2) (32 * 2 + 32)) 11 = Inr 0"
    by (simp add: root_slices py_index_def)
  have c: "get_entry_type sample_utils 0 = ''0x0''"
    by (simp add: sample_utils_sel sample_entry_type_def)
  from inst [where fuel = 1 and num = 2] r g i c
  have "scan_entry 1 sample_utils sample_fs 2 [] 2 = Some (Inr Terminator)"
    by blast
  with h first r i c show ?thesis by blast
qed

text \<open>
  C10. Only the cluster number that \<^verbatim>\<open>_get_sectors\<close> is called with is checked against the
  bound. When the FAT entry \<open>v\<close> of that cluster is a next-cluster value whose own entry lies
  at or past the end of the loaded FAT (and that the bound would reject), the lookup of
  entry \<open>v\<close> slices nothing, unpacks to 0, and the loop goes on with cluster 0: the sectors of
  cluster \<open>v\<close> and of cluster 0 are appended and the next entry read is entry 0. No range
  assertion fails.
\<close>

theorem get_sectors_unchecked_lookup:
  assumes "0 < c * 4 + 4" and "c * 4 + 4 < sectors_per_fat (boot s)"
    and "fat_entry s c = v" and "v \<noteq> 0" and "v \<le> 0x0FFFFFF8"
    and "int (length (fat s)) \<le> v * 4"
    and "sectors_per_fat (boot s) \<le> v * 4 + 4"
  shows "py_slice (fat s) (v * 4) (v * 4 + 4) = []
    \<and> fat_entry s v = 0
    \<and> get_sectors fuel s v = Some (Inl AssertionError)
    \<and> get_sectors (Suc (Suc fuel)) s c
        = map_option Inr (follow_chain fuel s (fat_entry s 0)
            ((cluster_sectors s c @ cluster_sectors s v) @ cluster_sectors s 0))
    \<and> get_sectors (Suc (Suc fuel)) s c \<noteq> Some (Inl AssertionError)"
proof -
  have empty: "py_slice (fat s) (v * 4) (v * 4 + 4) = []"
    using assms(6) by (intro py_slice_past_end) auto
  then have zero: "fat_entry s v = 0" by (simp add: fat_entry_def)
  have "get_sectors (Suc (Suc fuel)) s c
        = map_option Inr (follow_chain fuel s (fat_entry s 0)
            ((cluster_sectors s c @ cluster_sectors s v) @ cluster_sectors s 0))"
    using assms(1-5) zero by (simp add: get_sectors_def)
  moreover have "get_sectors fuel s v = Some (Inl AssertionError)"
    using assms(7) by (simp add: get_sectors_def)
  ultimately show ?thesis using empty zero by (auto simp: map_option_case split: option.splits)
qed

theorem get_sectors_unchecked_lookup_witness:
  "0 < (8::int) * 4 + 4 \<and> 8 * 4 + 4 < sectors_per_fat (boot sample_fs)
   \<and> fat_entry sample_fs 8 = 0x2000 \<and> int (length (fat sample_fs)) \<le> 0x2000 * 4
   \<and> sectors_per_fat (boot sample_fs) \<le> 0x2000 * 4 + 4
   \<and> fat_entry sample_fs 0x2000 = 0
   \<and> get_sectors 0 sample_fs 0x2000 = Some (Inl AssertionError)
   \<and> get_sectors 2 sample_fs 8 = Some (Inr [78, 8262, 70])"
proof -
  have h: "0 < (8::int) * 4 + 4" "8 * 4 + 4 < sectors_per_fat (boot sample_fs)"
    "fat_entry sample_fs 8 = 0x2000" "(0x2000::int) \<noteq> 0" "(0x2000::int) \<le> 0x0FFFFFF8"
    "int (length (fat sample_fs)) \<le> 0x2000 * 4"
    "sectors_per_fat (boot sample_fs) \<le> 0x2000 * 4 + 4"
    by (simp_all add: boot_sample_fs fat_entry_sample_fs fat_sample_fs length_sample_fat)
  have two: "2 = Suc (Suc 0)" by simp
  show ?thesis
    using get_sectors_unchecked_lookup [OF h, of 0] h
    by (simp add: two fat_entry_sample_fs cluster_sectors_sample_fs del: follow_chain.simps(2))
qed

end
